theory Spec2Isabelle
  imports Main "HOL-Library.Word" "HOL-Library.Signed_Division"
begin

unbundle bit_operations_syntax

section \<open>The beep program (src/beep.c)\<close>

text \<open>
  The program has three functions: \<^verbatim>\<open>play_beep\<close> (the tone emitter), \<^verbatim>\<open>play_sequence\<close>
  (the sequencer) and \<^verbatim>\<open>main\<close> (the command-line dispatcher). None of them computes a
  value of interest; what they do is call the operating system. The embedding therefore
  returns, for each function, the list of calls it made, in order.
\<close>

subsection \<open>Data\<close>

text \<open>
  A C \<^verbatim>\<open>int\<close> is a 32-bit word, read as two's complement by \<open>sint\<close>. Where a product or
  a shift of the program leaves the range of \<^verbatim>\<open>int\<close> (which C leaves undefined), the model
  keeps the low 32 bits.
\<close>

type_synonym c_int = "32 word"

text \<open>
  The three arms of the conditional compilation in \<^verbatim>\<open>play_beep\<close>:
  \<^verbatim>\<open>#ifdef __APPLE__\<close>, \<^verbatim>\<open>#elif __linux__\<close>, \<^verbatim>\<open>#else\<close>.
\<close>

datatype platform = Apple | Linux | Other

text \<open>
  What stops a run: the integer division \<^verbatim>\<open>1193180 / frequency\<close> with a zero divisor, and
  a read of \<^verbatim>\<open>frequencies[i]\<close> or \<^verbatim>\<open>durations[i]\<close> outside the array.
\<close>

datatype error = Division_by_zero | Out_of_bounds

text \<open>
  One event per call made by the program, in the order of the calls:
  \<^item> \<open>System_sound\<close>: \<^verbatim>\<open>AudioServicesPlaySystemSound(kSystemSoundID_UserPreferredAlert)\<close>;
  \<^item> \<open>Ioctl_tone a\<close>: \<^verbatim>\<open>ioctl(STDOUT_FILENO, KDMKTONE, a)\<close>;
  \<^item> \<open>Usleep us\<close>: \<^verbatim>\<open>usleep(us)\<close>, the argument read as unsigned microseconds;
  \<^item> \<open>Printf s\<close>: a \<^verbatim>\<open>printf\<close> that writes the text \<open>s\<close> to standard output;
  \<^item> \<open>Fflush\<close>: \<^verbatim>\<open>fflush(stdout)\<close>;
  \<^item> \<open>Play_beep f d evs\<close>: the call \<^verbatim>\<open>play_beep(f, d)\<close>, with the calls made inside it;
  \<^item> \<open>Play_sequence fs ds n evs\<close>: the call \<^verbatim>\<open>play_sequence(fs, ds, n)\<close>, with the calls
    made inside it.
\<close>

datatype event =
    System_sound
  | Ioctl_tone c_int
  | Usleep c_int
  | Printf string
  | Fflush
  | Play_beep c_int c_int "event list"
  | Play_sequence "c_int list" "c_int list" c_int "event list"

text \<open>
  Whether \<^verbatim>\<open>ioctl\<close> succeeds is decided by the operating system, not by the program. The
  environment is the function that gives the return value of the \<open>k\<close>-th \<^verbatim>\<open>ioctl\<close> call of
  the run (counted from 0); every function below takes the number of \<^verbatim>\<open>ioctl\<close> calls made
  so far and returns the new number.
\<close>

type_synonym env = "nat \<Rightarrow> c_int"

subsection \<open>C arithmetic and array reads\<close>

text \<open>
  C's \<^verbatim>\<open>/\<close> on \<^verbatim>\<open>int\<close> truncates towards zero and traps on a zero divisor. (The only
  dividend of the program is the constant 1193180, so the quotient always fits.)
\<close>

definition c_div :: "c_int \<Rightarrow> c_int \<Rightarrow> error + c_int" where
  "c_div a b = (if b = 0 then Inl Division_by_zero else Inr (word_of_int (sint a sdiv sint b)))"

text \<open>\<^verbatim>\<open>xs[i]\<close> for an array of \<open>length xs\<close> elements and an \<^verbatim>\<open>int\<close> index.\<close>

definition index :: "c_int list \<Rightarrow> c_int \<Rightarrow> error + c_int" where
  "index xs i = (if 0 \<le>s i \<and> unat i < length xs then Inr (xs ! unat i) else Inl Out_of_bounds)"

subsection \<open>The tone emitter\<close>

text \<open>The string \<^verbatim>\<open>"\a"\<close>: the bell control character.\<close>

definition bell :: string where
  "bell = [CHR 0x07]"

text \<open>
  \<^verbatim>\<open>play_beep\<close>, lines 17 to 36. On Linux the argument
  \<^verbatim>\<open>(frequency << 16) | (1193180 / frequency)\<close> is computed before the call of
  \<^verbatim>\<open>ioctl\<close>; the result of the second \<^verbatim>\<open>ioctl\<close> (stop the tone) is not looked at.
\<close>

definition play_beep :: "platform \<Rightarrow> env \<Rightarrow> c_int \<Rightarrow> c_int \<Rightarrow> nat \<Rightarrow> error + (event list \<times> nat)" where
  "play_beep p ioctl_ret frequency duration_ms k =
     (case p of
        Apple \<Rightarrow> Inr ([System_sound], k)
      | Linux \<Rightarrow>
          (case c_div 1193180 frequency of
             Inl e \<Rightarrow> Inl e
           | Inr q \<Rightarrow>
               if ioctl_ret k = 0
               then Inr ([Ioctl_tone (push_bit 16 frequency OR q),
                          Usleep (duration_ms * 1000),
                          Ioctl_tone 0], k + 2)
               else Inr ([Ioctl_tone (push_bit 16 frequency OR q),
                          Printf bell,
                          Fflush], k + 1))
      | Other \<Rightarrow> Inr ([Printf bell, Fflush], k))"

subsection \<open>The sequencer\<close>

text \<open>
  The first statement of the loop body, lines 41 to 46: the note at index \<open>i\<close> is a rest
  (a sleep) when its frequency is 0, and a call of \<^verbatim>\<open>play_beep\<close> otherwise.
\<close>

definition play_note :: "platform \<Rightarrow> env \<Rightarrow> c_int list \<Rightarrow> c_int list \<Rightarrow> c_int \<Rightarrow> nat \<Rightarrow> error + (event \<times> nat)" where
  "play_note p ioctl_ret frequencies durations i k =
     (case index frequencies i of
        Inl e \<Rightarrow> Inl e
      | Inr f \<Rightarrow>
          if f = 0 then
            (case index durations i of
               Inl e \<Rightarrow> Inl e
             | Inr d \<Rightarrow> Inr (Usleep (d * 1000), k))
          else
            (case index durations i of
               Inl e \<Rightarrow> Inl e
             | Inr d \<Rightarrow>
                 (case play_beep p ioctl_ret f d k of
                    Inl e \<Rightarrow> Inl e
                  | Inr (evs, k') \<Rightarrow> Inr (Play_beep f d evs, k'))))"

text \<open>
  The loop \<^verbatim>\<open>for (int i = 0; i < count; i++)\<close>, lines 40 to 50, from index \<open>i\<close> with the
  events \<open>t\<close> made so far. The second statement of the body, lines 47 to 49, adds
  \<^verbatim>\<open>usleep(50000)\<close> when \<^verbatim>\<open>i < count - 1\<close>. Both comparisons are signed.
\<close>

function play_sequence_loop ::
  "platform \<Rightarrow> env \<Rightarrow> c_int list \<Rightarrow> c_int list \<Rightarrow> c_int \<Rightarrow> c_int \<Rightarrow> event list \<Rightarrow> nat
     \<Rightarrow> error + (event list \<times> nat)" where
  "play_sequence_loop p ioctl_ret frequencies durations count i t k =
     (if i <s count then
        (case play_note p ioctl_ret frequencies durations i k of
           Inl e \<Rightarrow> Inl e
         | Inr (ev, k') \<Rightarrow>
             play_sequence_loop p ioctl_ret frequencies durations count (i + 1)
               (if i <s count - 1 then t @ [ev, Usleep 50000] else t @ [ev]) k')
      else Inr (t, k))"
  by pat_completeness auto

termination
proof (relation "measure (\<lambda>(p, e, fs, ds, count, i, t, k). nat (sint count - sint i))")
  show "wf (measure (\<lambda>(p, e, fs, ds, count, i, t, k). nat (sint count - sint i)))"
    by simp
next
  fix p :: platform and ioctl_ret :: env and frequencies durations :: "c_int list"
    and count i :: c_int and t :: "event list" and k :: nat
    and x :: "event \<times> nat" and ev :: event and k' :: nat
  assume less: "i <s count"
  have "sint count < 2 ^ 31"
    using sint_lt [of count] by simp
  moreover have "- (2 ^ 31) \<le> sint i"
    using sint_ge [of i] by simp
  ultimately have "- (2 ^ 31) \<le> sint i + sint (1 :: c_int)" "sint i + sint (1 :: c_int) < 2 ^ 31"
    using less by (simp_all add: word_sless_alt)
  then have "sint (i + 1) = sint i + sint (1 :: c_int)"
    by (simp add: sint_word_add signed_take_bit_int_eq_self)
  then have "sint (i + 1) = sint i + 1"
    by simp
  then show "((p, ioctl_ret, frequencies, durations, count, i + 1,
               if i <s count - 1 then t @ [ev, Usleep 50000] else t @ [ev], k'),
              (p, ioctl_ret, frequencies, durations, count, i, t, k))
             \<in> measure (\<lambda>(p, e, fs, ds, count, i, t, k). nat (sint count - sint i))"
    using less by (simp add: word_sless_alt)
qed

declare play_sequence_loop.simps [simp del]

text \<open>\<^verbatim>\<open>play_sequence\<close>, lines 39 to 51.\<close>

definition play_sequence :: "platform \<Rightarrow> env \<Rightarrow> c_int list \<Rightarrow> c_int list \<Rightarrow> c_int \<Rightarrow> nat \<Rightarrow> error + (event list \<times> nat)" where
  "play_sequence p ioctl_ret frequencies durations count k =
     play_sequence_loop p ioctl_ret frequencies durations count 0 [] k"

subsection \<open>The song tables\<close>

text \<open>The arrays \<^verbatim>\<open>freqs\<close> and \<^verbatim>\<open>durations\<close> of the three branches of \<^verbatim>\<open>main\<close>.\<close>

definition clown_freqs :: "c_int list" where
  "clown_freqs =
    [523, 523, 523, 523, 523, 523, 523, 523,
     659, 659, 659, 659, 659, 659, 659, 659,
     523, 523, 523, 523, 523, 523, 523, 523,
     440, 440, 440, 440, 440, 440, 440, 440,
     523, 659, 784, 880, 784, 659, 523, 440]"

definition clown_durations :: "c_int list" where
  "clown_durations =
    [200, 200, 200, 200, 200, 200, 200, 200,
     200, 200, 200, 200, 200, 200, 200, 200,
     200, 200, 200, 200, 200, 200, 200, 200,
     200, 200, 200, 200, 200, 200, 200, 200,
     300, 300, 300, 400, 300, 300, 300, 400]"

definition mario_freqs :: "c_int list" where
  "mario_freqs =
    [659, 659, 0, 659, 0, 523, 659, 0, 784, 0, 0, 0, 392, 0, 0, 0,
     523, 0, 392, 0, 330, 0, 440, 0, 494, 0, 466, 440, 0, 392, 659, 784,
     880, 0, 659, 523, 440, 0, 392, 0, 330, 0, 440, 0, 494, 0, 466, 440,
     392, 0, 659, 523, 440, 0, 392, 0, 330, 0, 440, 0, 494, 0, 466, 440]"

definition mario_durations :: "c_int list" where
  "mario_durations =
    [200, 200, 100, 200, 100, 200, 200, 100, 200, 100, 100, 100, 200, 100, 100, 100,
     200, 100, 200, 100, 200, 100, 200, 100, 200, 100, 200, 200, 100, 200, 200, 200,
     200, 100, 200, 200, 200, 100, 200, 100, 200, 100, 200, 100, 200, 100, 200, 200,
     200, 100, 200, 200, 200, 100, 200, 100, 200, 100, 200, 100, 200, 100, 200, 200]"

definition desperado_freqs :: "c_int list" where
  "desperado_freqs =
    [523, 0, 659, 0, 784, 0, 659, 0, 523, 0, 440, 0, 392, 0, 440, 0,
     523, 0, 659, 0, 784, 0, 880, 0, 784, 0, 659, 0, 523, 0, 440, 0,
     392, 0, 440, 0, 523, 0, 659, 0, 523, 0, 440, 0, 392, 0, 330, 0,
     440, 0, 523, 0, 659, 0, 784, 0, 659, 0, 523, 0, 440, 0, 392, 0]"

definition desperado_durations :: "c_int list" where
  "desperado_durations =
    [400, 100, 400, 100, 400, 100, 400, 100, 400, 100, 400, 100, 400, 100, 400, 100,
     400, 100, 400, 100, 400, 100, 400, 100, 400, 100, 400, 100, 400, 100, 400, 100,
     400, 100, 400, 100, 400, 100, 400, 100, 400, 100, 400, 100, 400, 100, 400, 100,
     400, 100, 400, 100, 400, 100, 400, 100, 400, 100, 400, 100, 400, 100, 400, 100]"

subsection \<open>The dispatcher\<close>

text \<open>
  \<^verbatim>\<open>argv[0]\<close> as \<^verbatim>\<open>printf("%s")\<close> writes it. With an empty argument list \<^verbatim>\<open>argv[0]\<close> is
  the null pointer, which the C libraries of the three platforms write as \<^verbatim>\<open>(null)\<close>.
\<close>

definition program_name :: "string list \<Rightarrow> string" where
  "program_name argv = (case argv of [] \<Rightarrow> ''(null)'' | a # _ \<Rightarrow> a)"

definition usage_text :: "string list \<Rightarrow> string" where
  "usage_text argv = ''Usage: '' @ program_name argv @ '' <sound_type>'' @ [CHR 0x0A]"

definition sound_types_text :: string where
  "sound_types_text = ''Sound types: clown, mario, desperado, test'' @ [CHR 0x0A]"

definition unknown_text :: "string \<Rightarrow> string" where
  "unknown_text sound_type = ''Unknown sound type: '' @ sound_type @ [CHR 0x0A]"

text \<open>
  \<^verbatim>\<open>main\<close>, lines 53 to 121: the exit code and the calls made. \<open>argv\<close> is the argument
  list, \<^verbatim>\<open>argc\<close> its length; \<^verbatim>\<open>strcmp(a, b) == 0\<close> is equality of the two strings.
  The run starts with no \<^verbatim>\<open>ioctl\<close> call made.
\<close>

definition main :: "platform \<Rightarrow> env \<Rightarrow> string list \<Rightarrow> error + (c_int \<times> event list)" where
  "main p ioctl_ret argv =
     (if length argv < 2 then
        Inr (1, [Printf (usage_text argv), Printf sound_types_text])
      else
        let sound_type = argv ! 1 in
        if sound_type = ''clown'' then
          (case play_sequence p ioctl_ret clown_freqs clown_durations 40 0 of
             Inl e \<Rightarrow> Inl e
           | Inr (evs, k) \<Rightarrow> Inr (0, [Play_sequence clown_freqs clown_durations 40 evs]))
        else if sound_type = ''mario'' then
          (case play_sequence p ioctl_ret mario_freqs mario_durations 64 0 of
             Inl e \<Rightarrow> Inl e
           | Inr (evs, k) \<Rightarrow> Inr (0, [Play_sequence mario_freqs mario_durations 64 evs]))
        else if sound_type = ''desperado'' then
          (case play_sequence p ioctl_ret desperado_freqs desperado_durations 64 0 of
             Inl e \<Rightarrow> Inl e
           | Inr (evs, k) \<Rightarrow> Inr (0, [Play_sequence desperado_freqs desperado_durations 64 evs]))
        else if sound_type = ''test'' then
          (case play_beep p ioctl_ret 800 300 0 of
             Inl e \<Rightarrow> Inl e
           | Inr (evs, k) \<Rightarrow> Inr (0, [Play_beep 800 300 evs]))
        else
          Inr (1, [Printf (unknown_text sound_type)]))"

section \<open>Reading the events\<close>

text \<open>\<open>separated a xs\<close>: the elements of \<open>xs\<close> with an \<open>a\<close> between each two neighbours.\<close>

fun separated :: "'a \<Rightarrow> 'a list \<Rightarrow> 'a list" where
  "separated a [] = []"
| "separated a [x] = [x]"
| "separated a (x # y # zs) = x # a # separated a (y # zs)"

text \<open>
  The calls of \<^verbatim>\<open>play_beep\<close> recorded in an event, at any depth, in order, each as the
  pair of its frequency and its duration; and the calls of \<^verbatim>\<open>play_sequence\<close>, each as
  its two arrays and its count.
\<close>

fun beeps :: "event \<Rightarrow> (c_int \<times> c_int) list" where
  "beeps (Play_beep f d evs) = (f, d) # concat (map beeps evs)"
| "beeps (Play_sequence fs ds n evs) = concat (map beeps evs)"
| "beeps _ = []"

fun sequences :: "event \<Rightarrow> (c_int list \<times> c_int list \<times> c_int) list" where
  "sequences (Play_sequence fs ds n evs) = (fs, ds, n) # concat (map sequences evs)"
| "sequences (Play_beep f d evs) = concat (map sequences evs)"
| "sequences _ = []"

section \<open>The sequencer as a function on a list of notes\<close>

text \<open>
  For the proofs the loop is compared with a recursion on the list of the notes
  \<open>(frequency, duration)\<close>: \<open>note_event\<close> is the first statement of the loop body once
  both array reads have succeeded, and \<open>note_events\<close> runs it on each note in turn.
\<close>

definition note_event :: "platform \<Rightarrow> env \<Rightarrow> c_int \<Rightarrow> c_int \<Rightarrow> nat \<Rightarrow> error + (event \<times> nat)" where
  "note_event p ioctl_ret f d k =
     (if f = 0 then Inr (Usleep (d * 1000), k)
      else (case play_beep p ioctl_ret f d k of
              Inl e \<Rightarrow> Inl e
            | Inr (evs, k') \<Rightarrow> Inr (Play_beep f d evs, k')))"

fun note_events :: "platform \<Rightarrow> env \<Rightarrow> (c_int \<times> c_int) list \<Rightarrow> nat \<Rightarrow> error + (event list \<times> nat)" where
  "note_events p ioctl_ret [] k = Inr ([], k)"
| "note_events p ioctl_ret ((f, d) # rest) k =
     (case note_event p ioctl_ret f d k of
        Inl e \<Rightarrow> Inl e
      | Inr (ev, k') \<Rightarrow>
          (case note_events p ioctl_ret rest k' of
             Inl e \<Rightarrow> Inl e
           | Inr (evs, k'') \<Rightarrow> Inr (ev # evs, k'')))"

section \<open>The loop and the list of notes\<close>

subsection \<open>Indices as words\<close>

lemma sint_of_nat_small:
  "n < 2 ^ 31 \<Longrightarrow> sint (of_nat n :: c_int) = int n"
  by (simp add: signed_of_nat signed_take_bit_int_eq_self)

lemma unat_of_nat_small:
  "n < 2 ^ 31 \<Longrightarrow> unat (of_nat n :: c_int) = n"
  by (simp add: unat_of_nat)

lemma sless_of_nat:
  "i < 2 ^ 31 \<Longrightarrow> n < 2 ^ 31 \<Longrightarrow> (of_nat i :: c_int) <s of_nat n \<longleftrightarrow> i < n"
  by (simp add: word_sless_alt sint_of_nat_small)

lemma sless_of_nat_pred:
  assumes "i < n" "n < 2 ^ 31"
  shows "(of_nat i :: c_int) <s of_nat n - 1 \<longleftrightarrow> Suc i < n"
proof -
  from assms obtain m where n: "n = Suc m" by (cases n) auto
  then have "(of_nat n :: c_int) - 1 = of_nat m" by simp
  moreover have "m < 2 ^ 31" "i < 2 ^ 31" using assms n by simp_all
  ultimately show ?thesis using n by (simp add: sless_of_nat)
qed

lemma index_of_nat:
  assumes "i < length xs" "i < 2 ^ 31"
  shows "index xs (of_nat i) = Inr (xs ! i)"
  using assms by (simp add: index_def unat_of_nat_small word_sle_eq sint_of_nat_small)

lemma play_note_of_nat:
  assumes "i < length fs" "i < length ds" "i < 2 ^ 31"
  shows "play_note p e fs ds (of_nat i) k = note_event p e (fs ! i) (ds ! i) k"
  using assms by (simp add: play_note_def note_event_def index_of_nat)

lemma drop_take_zip_step:
  assumes "i < n" "n \<le> length fs" "n \<le> length ds"
  shows "drop i (take n (zip fs ds)) = (fs ! i, ds ! i) # drop (Suc i) (take n (zip fs ds))"
proof -
  have "i < length (take n (zip fs ds))" using assms by simp
  then have "drop i (take n (zip fs ds)) = take n (zip fs ds) ! i # drop (Suc i) (take n (zip fs ds))"
    by (rule Cons_nth_drop_Suc [symmetric])
  moreover have "take n (zip fs ds) ! i = (fs ! i, ds ! i)" using assms by simp
  ultimately show ?thesis by simp
qed

lemma separated_snoc2:
  "xs \<noteq> [] \<Longrightarrow> separated a (x # xs) = x # a # separated a xs"
  by (cases xs) simp_all

subsection \<open>The loop runs the notes in order, with a pause between two\<close>

lemma note_events_length:
  "note_events p e nds k = Inr (evs, k') \<Longrightarrow> length evs = length nds"
  by (induction nds arbitrary: k evs) (auto split: sum.splits prod.splits)

lemma loop_note_events:
  assumes "n \<le> length fs" "n \<le> length ds" "n < 2 ^ 31" "i \<le> n"
  shows "play_sequence_loop p e fs ds (of_nat n) (of_nat i) t k =
           (case note_events p e (drop i (take n (zip fs ds))) k of
              Inl err \<Rightarrow> Inl err
            | Inr (evs, k') \<Rightarrow> Inr (t @ separated (Usleep 50000) evs, k'))"
  using assms
proof (induction "n - i" arbitrary: i t k)
  case 0
  then have "i = n" by simp
  then show ?case
    by (subst play_sequence_loop.simps) simp
next
  case (Suc m)
  then have lt: "i < n" and i31: "i < 2 ^ 31" by simp_all
  have m: "m = n - Suc i" using Suc.hyps by simp
  have step: "drop i (take n (zip fs ds)) = (fs ! i, ds ! i) # drop (Suc i) (take n (zip fs ds))"
    using lt Suc.prems by (intro drop_take_zip_step) simp_all
  have pn: "play_note p e fs ds (of_nat i) k = note_event p e (fs ! i) (ds ! i) k"
    using lt Suc.prems i31 by (intro play_note_of_nat) simp_all
  have cond: "(of_nat i :: c_int) <s of_nat n" using lt i31 Suc.prems by (simp add: sless_of_nat)
  have gap: "(of_nat i :: c_int) <s of_nat n - 1 \<longleftrightarrow> Suc i < n"
    using lt Suc.prems by (intro sless_of_nat_pred) simp_all
  have succ: "(of_nat i :: c_int) + 1 = of_nat (Suc i)" by simp
  show ?case
  proof (cases "note_event p e (fs ! i) (ds ! i) k")
    case (Inl err)
    then show ?thesis
      by (subst play_sequence_loop.simps) (simp add: cond pn step)
  next
    case (Inr r)
    obtain ev k1 where r: "r = (ev, k1)" by (cases r)
    have IH: "play_sequence_loop p e fs ds (of_nat n) (of_nat i + 1) t' k1 =
           (case note_events p e (drop (Suc i) (take n (zip fs ds))) k1 of
              Inl err \<Rightarrow> Inl err
            | Inr (evs, k') \<Rightarrow> Inr (t' @ separated (Usleep 50000) evs, k'))" for t'
      unfolding succ using Suc.hyps(1) [of "Suc i" t' k1] m Suc.prems lt by simp
    show ?thesis
    proof (cases "Suc i < n")
      case True
      have len: "length (drop (Suc i) (take n (zip fs ds))) = n - Suc i"
        using Suc.prems by simp
      show ?thesis
      proof (cases "note_events p e (drop (Suc i) (take n (zip fs ds))) k1")
        case (Inl err)
        then show ?thesis
          using True Inr r
          by (subst play_sequence_loop.simps) (simp add: cond pn step gap IH)
      next
        case (Inr r2)
        obtain evs k2 where r2: "r2 = (evs, k2)" by (cases r2)
        have "length evs = n - Suc i"
          using note_events_length [of p e _ k1 evs k2] Inr r2 len by simp
        then have "evs \<noteq> []" using True by auto
        then show ?thesis
          using True \<open>note_event p e (fs ! i) (ds ! i) k = Inr r\<close> r Inr r2
          by (subst play_sequence_loop.simps) (simp add: cond pn step gap IH separated_snoc2)
      qed
    next
      case False
      then have "Suc i = n" using lt by simp
      then have "drop (Suc i) (take n (zip fs ds)) = []" by simp
      then show ?thesis
        using False Inr r
        by (subst play_sequence_loop.simps) (simp add: cond pn step gap IH)
    qed
  qed
qed

subsection \<open>What the tone emitter and a note leave in the events\<close>

lemma play_beep_returns:
  assumes "f \<noteq> 0"
  shows "\<exists>evs k'. play_beep p e f d k = Inr (evs, k')"
  using assms by (cases p) (simp_all add: play_beep_def c_div_def)

lemma play_beep_no_calls:
  assumes "play_beep p e f d k = Inr (evs, k')"
  shows "concat (map beeps evs) = [] \<and> concat (map sequences evs) = []"
  using assms
  by (cases p) (auto simp: play_beep_def c_div_def split: if_splits)

lemma note_event_returns:
  "\<exists>ev k'. note_event p e f d k = Inr (ev, k')"
proof (cases "f = 0")
  case True
  then show ?thesis by (simp add: note_event_def)
next
  case False
  from play_beep_returns [OF this] obtain evs k' where "play_beep p e f d k = Inr (evs, k')"
    by blast
  with False show ?thesis by (simp add: note_event_def)
qed

lemma note_event_beeps:
  assumes "note_event p e f d k = Inr (ev, k')"
  shows "beeps ev = (if f = 0 then [] else [(f, d)])" and "sequences ev = []"
  using assms play_beep_no_calls [of p e f d k]
  by (auto simp: note_event_def split: if_splits sum.splits)

lemma note_events_returns:
  "\<exists>evs k'. note_events p e nds k = Inr (evs, k')"
proof (induction nds arbitrary: k)
  case Nil
  show ?case by simp
next
  case (Cons nd nds)
  obtain f d where nd: "nd = (f, d)" by (cases nd)
  obtain ev k1 where ev: "note_event p e f d k = Inr (ev, k1)"
    using note_event_returns by blast
  obtain evs k2 where "note_events p e nds k1 = Inr (evs, k2)"
    using Cons.IH by blast
  with nd ev show ?case by simp
qed

lemma note_events_nth:
  assumes "note_events p e nds k = Inr (evs, k')" "i < length nds"
  shows "\<exists>k0 k1. note_event p e (fst (nds ! i)) (snd (nds ! i)) k0 = Inr (evs ! i, k1)"
  using assms
proof (induction nds arbitrary: k evs i)
  case Nil
  then show ?case by simp
next
  case (Cons nd nds)
  obtain f d where nd: "nd = (f, d)" by (cases nd)
  from Cons.prems(1) nd obtain ev k1 evs' where
    ev: "note_event p e f d k = Inr (ev, k1)" and
    rest: "note_events p e nds k1 = Inr (evs', k')" and
    evs: "evs = ev # evs'"
    by (auto split: sum.splits prod.splits)
  show ?case
  proof (cases i)
    case 0
    with ev evs nd show ?thesis by auto
  next
    case (Suc j)
    then have "j < length nds" using Cons.prems(2) by simp
    from Cons.IH [OF rest this] Suc evs show ?thesis by simp
  qed
qed

lemma note_events_beeps:
  assumes "note_events p e nds k = Inr (evs, k')"
  shows "concat (map beeps evs) = filter (\<lambda>(f, d). f \<noteq> 0) nds"
    and "concat (map sequences evs) = []"
  using assms
proof (induction nds arbitrary: k evs)
  case Nil
  { case 1 then show ?case by simp }
  { case 2 then show ?case by simp }
next
  case (Cons nd nds)
  obtain f d where nd: "nd = (f, d)" by (cases nd)
  { case 1
    from 1 nd obtain ev k1 evs' where
      ev: "note_event p e f d k = Inr (ev, k1)" and
      rest: "note_events p e nds k1 = Inr (evs', k')" and
      evs: "evs = ev # evs'"
      by (auto split: sum.splits prod.splits)
    show ?case using Cons.IH(1) [OF rest] note_event_beeps(1) [OF ev] evs nd by simp }
  { case 2
    from 2 nd obtain ev k1 evs' where
      ev: "note_event p e f d k = Inr (ev, k1)" and
      rest: "note_events p e nds k1 = Inr (evs', k')" and
      evs: "evs = ev # evs'"
      by (auto split: sum.splits prod.splits)
    show ?case using Cons.IH(2) [OF rest] note_event_beeps(2) [OF ev] evs by simp }
qed

subsection \<open>Separated lists\<close>

lemma length_separated:
  "length (separated a xs) = length xs + (length xs - 1)"
  by (induction a xs rule: separated.induct) simp_all

lemma separated_nth_even:
  "i < length xs \<Longrightarrow> separated a xs ! (2 * i) = xs ! i"
proof (induction a xs arbitrary: i rule: separated.induct)
  case (3 a x y zs)
  then show ?case by (cases i) simp_all
qed simp_all

lemma separated_nth_odd:
  "Suc i < length xs \<Longrightarrow> separated a xs ! (2 * i + 1) = a"
proof (induction a xs arbitrary: i rule: separated.induct)
  case (3 a x y zs)
  then show ?case by (cases i) simp_all
qed simp_all

lemma separated_calls:
  assumes "beeps a = []" "sequences a = []"
  shows "concat (map beeps (separated a xs)) = concat (map beeps xs)"
    and "concat (map sequences (separated a xs)) = concat (map sequences xs)"
  using assms by (induction a xs rule: separated.induct) simp_all

subsection \<open>The sequencer in terms of the notes\<close>

lemma play_sequence_note_events:
  assumes "n \<le> length fs" "n \<le> length ds" "n < 2 ^ 31"
  shows "\<exists>nts k'. note_events p e (take n (zip fs ds)) k = Inr (nts, k') \<and>
           play_sequence p e fs ds (of_nat n) k = Inr (separated (Usleep 50000) nts, k')"
proof -
  obtain nts k' where ne: "note_events p e (take n (zip fs ds)) k = Inr (nts, k')"
    using note_events_returns by blast
  have "play_sequence p e fs ds (of_nat n) k = Inr (separated (Usleep 50000) nts, k')"
    using loop_note_events [of n fs ds 0 p e "[]" k] assms ne
    by (simp add: play_sequence_def)
  with ne show ?thesis by blast
qed

section \<open>Microseconds\<close>

lemma usleep_ms:
  fixes d :: c_int
  assumes "0 \<le>s d" "d \<le>s 2147483"
  shows "unat (d * 1000) = 1000 * unat d"
proof -
  have "0 \<le> sint d" "sint d \<le> 2147483"
    using assms by (simp_all add: word_sle_eq)
  then have "uint d = sint d"
    by (simp add: uint_sint take_bit_int_eq_self)
  then have "unat d \<le> 2147483"
    using \<open>sint d \<le> 2147483\<close> by (simp add: unat_eq_nat_uint)
  then have "unat d * unat (1000 :: c_int) < 2 ^ LENGTH(32)"
    by simp
  then have "unat (d * 1000) = unat d * unat (1000 :: c_int)"
    by (rule unat_mult_lem [THEN iffD1])
  then show ?thesis by simp
qed

section \<open>The sequencer\<close>

text \<open>
  Claim C5. For every song of \<open>n\<close> notes played by the sequencer (both arrays hold at least
  \<open>n\<close> elements), the sequencer returns, and its events are one event per note, in order,
  separated by pauses. The event of note \<open>i\<close> is: when its frequency is 0, the sleep
  \<^verbatim>\<open>usleep(durations[i] * 1000)\<close> and no call of the tone emitter (a duration from 0 to
  2147483 milliseconds, for which the product fits an \<^verbatim>\<open>int\<close>, is slept exactly: the
  microseconds are 1000 times the milliseconds); otherwise the call
  \<^verbatim>\<open>play_beep(frequencies[i], durations[i])\<close>.
\<close>

theorem play_sequence_rest_or_beep:
  assumes "n \<le> length frequencies" "n \<le> length durations" "n < 2 ^ 31"
  shows "\<exists>nts k'.
      play_sequence p ioctl_ret frequencies durations (of_nat n) k
        = Inr (separated (Usleep 50000) nts, k') \<and>
      length nts = n \<and>
      (\<forall>i<n. if frequencies ! i = 0
             then nts ! i = Usleep (durations ! i * 1000) \<and> beeps (nts ! i) = [] \<and>
                  (0 \<le>s durations ! i \<and> durations ! i \<le>s 2147483 \<longrightarrow>
                     unat (durations ! i * 1000) = 1000 * unat (durations ! i))
             else \<exists>evs k0 k1.
                    play_beep p ioctl_ret (frequencies ! i) (durations ! i) k0 = Inr (evs, k1) \<and>
                    nts ! i = Play_beep (frequencies ! i) (durations ! i) evs)"
proof -
  let ?nds = "take n (zip frequencies durations)"
  obtain nts k' where
    ne: "note_events p ioctl_ret ?nds k = Inr (nts, k')" and
    ps: "play_sequence p ioctl_ret frequencies durations (of_nat n) k
           = Inr (separated (Usleep 50000) nts, k')"
    using play_sequence_note_events [OF assms] by blast
  have len: "length ?nds = n" using assms by simp
  then have lnts: "length nts = n" using note_events_length [OF ne] by simp
  have "if frequencies ! i = 0
        then nts ! i = Usleep (durations ! i * 1000) \<and> beeps (nts ! i) = [] \<and>
             (0 \<le>s durations ! i \<and> durations ! i \<le>s 2147483 \<longrightarrow>
                unat (durations ! i * 1000) = 1000 * unat (durations ! i))
        else \<exists>evs k0 k1.
               play_beep p ioctl_ret (frequencies ! i) (durations ! i) k0 = Inr (evs, k1) \<and>
               nts ! i = Play_beep (frequencies ! i) (durations ! i) evs" if "i < n" for i
  proof -
    have nd: "?nds ! i = (frequencies ! i, durations ! i)" using that assms by simp
    have "i < length ?nds" using that len by (simp only:)
    from note_events_nth [OF ne this] obtain k0 k1 where
      ev: "note_event p ioctl_ret (frequencies ! i) (durations ! i) k0 = Inr (nts ! i, k1)"
      unfolding nd by auto
    show ?thesis
    proof (cases "frequencies ! i = 0")
      case True
      with ev have "nts ! i = Usleep (durations ! i * 1000)"
        by (simp add: note_event_def)
      with True show ?thesis by (simp add: usleep_ms)
    next
      case False
      with ev obtain evs where
        "play_beep p ioctl_ret (frequencies ! i) (durations ! i) k0 = Inr (evs, k1)"
        "nts ! i = Play_beep (frequencies ! i) (durations ! i) evs"
        by (auto simp: note_event_def split: sum.splits)
      with False show ?thesis by auto
    qed
  qed
  with ps lnts show ?thesis by blast
qed

theorem play_sequence_rest_or_beep_witness:
  "(3 :: nat) \<le> length [440, 0, 523 :: c_int] \<and> (3 :: nat) \<le> length [200, 100, 300 :: c_int] \<and>
   (3 :: nat) < 2 ^ 31 \<and>
   play_sequence Other (\<lambda>_. 0) [440, 0, 523] [200, 100, 300] 3 0 =
     Inr ([Play_beep 440 200 [Printf [CHR 0x07], Fflush], Usleep 50000,
           Usleep 100000, Usleep 50000,
           Play_beep 523 300 [Printf [CHR 0x07], Fflush]], 0)"
proof -
  have run: "play_sequence Other (\<lambda>_. 0) [440, 0, 523] [200, 100, 300] 3 0 =
     Inr ([Play_beep 440 200 [Printf [CHR 0x07], Fflush], Usleep 50000,
           Usleep 100000, Usleep 50000,
           Play_beep 523 300 [Printf [CHR 0x07], Fflush]], 0)"
    by (simp add: play_sequence_def play_sequence_loop.simps play_note_def index_def play_beep_def
          bell_def word_sless_alt word_sle_eq)
  from play_sequence_rest_or_beep [of 3 "[440, 0, 523]" "[200, 100, 300]" Other "\<lambda>_. 0" 0]
  obtain nts k' where
    "play_sequence Other (\<lambda>_. 0) [440, 0, 523] [200, 100, 300] (of_nat 3) 0
       = Inr (separated (Usleep 50000) nts, k')" "length nts = 3"
    by auto
  with run show ?thesis by simp
qed

text \<open>
  Claim C6. For every song of \<open>n\<close> notes played by the sequencer, the events are the \<open>n\<close>
  note events (each what the first statement of the loop body does for that note) with
  the pause \<^verbatim>\<open>usleep(50000)\<close> between each two consecutive ones: \<open>n + (n - 1)\<close> events, the
  note events at the even positions and a pause at each odd position, so \<open>n - 1\<close> pauses;
  the last event is the last note's, with no pause after it; with \<open>n\<close> equal to 0 or 1 there
  is no pause at all.
\<close>

theorem play_sequence_pauses:
  assumes "n \<le> length frequencies" "n \<le> length durations" "n < 2 ^ 31"
  shows "\<exists>nts evs k'.
      play_sequence p ioctl_ret frequencies durations (of_nat n) k = Inr (evs, k') \<and>
      evs = separated (Usleep 50000) nts \<and>
      length nts = n \<and>
      (\<forall>i<n. \<exists>k0 k1.
         play_note p ioctl_ret frequencies durations (of_nat i) k0 = Inr (nts ! i, k1)) \<and>
      length evs = n + (n - 1) \<and>
      (\<forall>i<n. evs ! (2 * i) = nts ! i) \<and>
      (\<forall>i. Suc i < n \<longrightarrow> evs ! (2 * i + 1) = Usleep 50000) \<and>
      (0 < n \<longrightarrow> last evs = nts ! (n - 1)) \<and>
      (n \<le> 1 \<longrightarrow> evs = nts)"
proof -
  let ?nds = "take n (zip frequencies durations)"
  obtain nts k' where
    ne: "note_events p ioctl_ret ?nds k = Inr (nts, k')" and
    ps: "play_sequence p ioctl_ret frequencies durations (of_nat n) k
           = Inr (separated (Usleep 50000) nts, k')"
    using play_sequence_note_events [OF assms] by blast
  let ?evs = "separated (Usleep 50000) nts"
  have len: "length ?nds = n" using assms by simp
  then have lnts: "length nts = n" using note_events_length [OF ne] by simp
  have each: "\<exists>k0 k1. play_note p ioctl_ret frequencies durations (of_nat i) k0 = Inr (nts ! i, k1)"
    if "i < n" for i
  proof -
    have nd: "?nds ! i = (frequencies ! i, durations ! i)" using that assms by simp
    have "i < length ?nds" using that len by (simp only:)
    from note_events_nth [OF ne this] obtain k0 k1 where
      ev: "note_event p ioctl_ret (frequencies ! i) (durations ! i) k0 = Inr (nts ! i, k1)"
      unfolding nd by auto
    have "play_note p ioctl_ret frequencies durations (of_nat i) k0
            = note_event p ioctl_ret (frequencies ! i) (durations ! i) k0"
      using that assms by (intro play_note_of_nat) simp_all
    with ev show ?thesis by auto
  qed
  have l: "length ?evs = n + (n - 1)"
    using lnts by (simp add: length_separated)
  have even: "?evs ! (2 * i) = nts ! i" if "i < n" for i
    using that lnts by (simp add: separated_nth_even)
  have odd: "?evs ! (2 * i + 1) = Usleep 50000" if "Suc i < n" for i
    using that lnts separated_nth_odd [of i nts "Usleep 50000"] by simp
  have lst: "last ?evs = nts ! (n - 1)" if "0 < n"
  proof -
    from that l have "?evs \<noteq> []" by auto
    then have "last ?evs = ?evs ! (length ?evs - 1)" by (rule last_conv_nth)
    also have "length ?evs - 1 = 2 * (n - 1)" using l that by simp
    also have "?evs ! (2 * (n - 1)) = nts ! (n - 1)" using that by (intro even) simp
    finally show ?thesis .
  qed
  have one: "?evs = nts" if "n \<le> 1"
  proof (cases nts)
    case Nil
    then show ?thesis by simp
  next
    case (Cons a as)
    with that lnts have "as = []" by auto
    with Cons show ?thesis by simp
  qed
  from ps lnts each l even odd lst one show ?thesis by blast
qed

theorem play_sequence_pauses_witness:
  "(3 :: nat) \<le> length [440, 0, 523 :: c_int] \<and> (3 :: nat) \<le> length [200, 100, 300 :: c_int] \<and>
   (3 :: nat) < 2 ^ 31 \<and>
   play_sequence Linux (\<lambda>_. 0) [440, 0, 523] [200, 100, 300] 3 0 =
     Inr ([Play_beep 440 200 [Ioctl_tone 28838551, Usleep 200000, Ioctl_tone 0], Usleep 50000,
           Usleep 100000, Usleep 50000,
           Play_beep 523 300 [Ioctl_tone 34277609, Usleep 300000, Ioctl_tone 0]], 4) \<and>
   play_sequence Linux (\<lambda>_. 0) [440] [200] 1 0 =
     Inr ([Play_beep 440 200 [Ioctl_tone 28838551, Usleep 200000, Ioctl_tone 0]], 2) \<and>
   play_sequence Linux (\<lambda>_. 0) [] [] 0 0 = Inr ([], 0)"
proof -
  have run: "play_sequence Linux (\<lambda>_. 0) [440, 0, 523] [200, 100, 300] 3 0 =
     Inr ([Play_beep 440 200 [Ioctl_tone 28838551, Usleep 200000, Ioctl_tone 0], Usleep 50000,
           Usleep 100000, Usleep 50000,
           Play_beep 523 300 [Ioctl_tone 34277609, Usleep 300000, Ioctl_tone 0]], 4)"
    "play_sequence Linux (\<lambda>_. 0) [440] [200] 1 0 =
     Inr ([Play_beep 440 200 [Ioctl_tone 28838551, Usleep 200000, Ioctl_tone 0]], 2)"
    "play_sequence Linux (\<lambda>_. 0) [] [] 0 0 = Inr ([], 0)"
    by (simp_all add: play_sequence_def play_sequence_loop.simps play_note_def index_def
          play_beep_def c_div_def signed_divide_int_def word_sless_alt word_sle_eq)
  from play_sequence_pauses [of 3 "[440, 0, 523]" "[200, 100, 300]" Linux "\<lambda>_. 0" 0]
  obtain evs k' where
    "play_sequence Linux (\<lambda>_. 0) [440, 0, 523] [200, 100, 300] (of_nat 3) 0 = Inr (evs, k')"
    "length evs = 3 + (3 - 1)"
    by auto
  with run show ?thesis by simp
qed

section \<open>The tone emitter\<close>

text \<open>
  Claim C8. Every call of the tone emitter returns to its caller, and no error reaches the
  caller (the C function returns \<^verbatim>\<open>void\<close>); on Linux this is for a nonzero frequency, as
  the emitter's contract has it (a zero frequency divides by zero there). Where the
  platform has no tone mechanism (neither Apple nor Linux), and on Linux when \<^verbatim>\<open>ioctl\<close>
  fails (returns nonzero), the call writes the bell character to standard output and
  flushes it.
\<close>

theorem play_beep_fallback:
  assumes "p = Linux \<Longrightarrow> frequency \<noteq> 0"
  shows "\<exists>evs k'.
      play_beep p ioctl_ret frequency duration_ms k = Inr (evs, k') \<and>
      (p = Other \<longrightarrow> evs = [Printf [CHR 0x07], Fflush]) \<and>
      (p = Linux \<and> ioctl_ret k \<noteq> 0 \<longrightarrow>
         (\<exists>a. evs = [Ioctl_tone a, Printf [CHR 0x07], Fflush])) \<and>
      (p = Linux \<and> ioctl_ret k = 0 \<longrightarrow>
         (\<exists>a. evs = [Ioctl_tone a, Usleep (duration_ms * 1000), Ioctl_tone 0])) \<and>
      (p = Apple \<longrightarrow> evs = [System_sound])"
  using assms by (cases p) (simp_all add: play_beep_def c_div_def bell_def)

theorem play_beep_fallback_witness:
  "(800 :: c_int) \<noteq> 0 \<and>
   play_beep Linux (\<lambda>_. - 1) 800 300 0 = Inr ([Ioctl_tone 52430291, Printf [CHR 0x07], Fflush], 1) \<and>
   play_beep Other (\<lambda>_. - 1) 800 300 0 = Inr ([Printf [CHR 0x07], Fflush], 0)"
proof -
  have nz: "(800 :: c_int) \<noteq> 0" by simp
  have arg: "play_beep Linux (\<lambda>_. - 1) 800 300 0
      = Inr ([Ioctl_tone 52430291, Printf [CHR 0x07], Fflush], 1)"
    by (simp add: play_beep_def c_div_def bell_def signed_divide_int_def)
  from play_beep_fallback [of Linux 800 "\<lambda>_. - 1" 300 0] nz
  obtain a k' where "play_beep Linux (\<lambda>_. - 1) 800 300 0
      = Inr ([Ioctl_tone a, Printf [CHR 0x07], Fflush], k')"
    by auto
  moreover from play_beep_fallback [of Other 800 "\<lambda>_. - 1" 300 0]
  have "play_beep Other (\<lambda>_. - 1) 800 300 0 = Inr ([Printf [CHR 0x07], Fflush], 0)"
    by (auto simp: play_beep_def)
  ultimately show ?thesis using nz arg by simp
qed

text \<open>
  Claim C7 says that every call of the tone emitter waits for the duration, on every path.
  The code waits only on Linux after a successful \<^verbatim>\<open>ioctl\<close>. The call
  \<^verbatim>\<open>play_beep(800, 300)\<close> makes no \<^verbatim>\<open>usleep\<close> call on the bell path of the other platforms,
  on the bell path of Linux (\<^verbatim>\<open>ioctl\<close> returning -1), or on Apple.
\<close>

theorem play_beep_without_wait:
  "play_beep Other (\<lambda>_. 0) 800 300 0 = Inr ([Printf [CHR 0x07], Fflush], 0) \<and>
   play_beep Linux (\<lambda>_. - 1) 800 300 0
     = Inr ([Ioctl_tone 52430291, Printf [CHR 0x07], Fflush], 1) \<and>
   play_beep Apple (\<lambda>_. 0) 800 300 0 = Inr ([System_sound], 0)"
  by (simp add: play_beep_def c_div_def bell_def signed_divide_int_def)

section \<open>The dispatcher\<close>

subsection \<open>What \<^verbatim>\<open>main\<close> returns, branch by branch\<close>

lemma song_lengths:
  "length clown_freqs = 40" "length clown_durations = 40"
  "length mario_freqs = 64" "length mario_durations = 64"
  "length desperado_freqs = 64" "length desperado_durations = 64"
  by (simp_all add: clown_freqs_def clown_durations_def mario_freqs_def mario_durations_def
        desperado_freqs_def desperado_durations_def)

lemma play_song:
  assumes "length fs = n" "length ds = n" "n < 2 ^ 31"
  shows "\<exists>nts k'. note_events p e (zip fs ds) 0 = Inr (nts, k') \<and> length nts = n \<and>
           play_sequence p e fs ds (of_nat n) 0 = Inr (separated (Usleep 50000) nts, k')"
proof -
  from play_sequence_note_events [of n fs ds p e 0] assms
  obtain nts k' where ne: "note_events p e (zip fs ds) 0 = Inr (nts, k')"
    and ps: "play_sequence p e fs ds (of_nat n) 0 = Inr (separated (Usleep 50000) nts, k')"
    by auto
  from note_events_length [OF ne] assms have "length nts = n" by simp
  with ne ps show ?thesis by blast
qed

lemma main_no_argument:
  assumes "length argv < 2"
  shows "main p e argv = Inr (1, [Printf (usage_text argv), Printf sound_types_text])"
  using assms by (simp add: main_def)

lemma main_clown:
  assumes "2 \<le> length argv" "argv ! 1 = ''clown''"
  shows "\<exists>nts k'. note_events p e (zip clown_freqs clown_durations) 0 = Inr (nts, k') \<and>
           length nts = 40 \<and>
           play_sequence p e clown_freqs clown_durations 40 0
             = Inr (separated (Usleep 50000) nts, k') \<and>
           main p e argv
             = Inr (0, [Play_sequence clown_freqs clown_durations 40 (separated (Usleep 50000) nts)])"
proof -
  from play_song [of clown_freqs 40 clown_durations p e]
  obtain nts k' where "note_events p e (zip clown_freqs clown_durations) 0 = Inr (nts, k')"
    "length nts = 40"
    "play_sequence p e clown_freqs clown_durations 40 0 = Inr (separated (Usleep 50000) nts, k')"
    by (auto simp: song_lengths)
  moreover from this assms
  have "main p e argv
      = Inr (0, [Play_sequence clown_freqs clown_durations 40 (separated (Usleep 50000) nts)])"
    by (simp add: main_def)
  ultimately show ?thesis by blast
qed

lemma main_mario:
  assumes "2 \<le> length argv" "argv ! 1 = ''mario''"
  shows "\<exists>nts k'. note_events p e (zip mario_freqs mario_durations) 0 = Inr (nts, k') \<and>
           length nts = 64 \<and>
           play_sequence p e mario_freqs mario_durations 64 0
             = Inr (separated (Usleep 50000) nts, k') \<and>
           main p e argv
             = Inr (0, [Play_sequence mario_freqs mario_durations 64 (separated (Usleep 50000) nts)])"
proof -
  from play_song [of mario_freqs 64 mario_durations p e]
  obtain nts k' where "note_events p e (zip mario_freqs mario_durations) 0 = Inr (nts, k')"
    "length nts = 64"
    "play_sequence p e mario_freqs mario_durations 64 0 = Inr (separated (Usleep 50000) nts, k')"
    by (auto simp: song_lengths)
  moreover from this assms
  have "main p e argv
      = Inr (0, [Play_sequence mario_freqs mario_durations 64 (separated (Usleep 50000) nts)])"
    by (simp add: main_def)
  ultimately show ?thesis by blast
qed

lemma main_desperado:
  assumes "2 \<le> length argv" "argv ! 1 = ''desperado''"
  shows "\<exists>nts k'. note_events p e (zip desperado_freqs desperado_durations) 0 = Inr (nts, k') \<and>
           length nts = 64 \<and>
           play_sequence p e desperado_freqs desperado_durations 64 0
             = Inr (separated (Usleep 50000) nts, k') \<and>
           main p e argv
             = Inr (0, [Play_sequence desperado_freqs desperado_durations 64
                          (separated (Usleep 50000) nts)])"
proof -
  from play_song [of desperado_freqs 64 desperado_durations p e]
  obtain nts k' where "note_events p e (zip desperado_freqs desperado_durations) 0 = Inr (nts, k')"
    "length nts = 64"
    "play_sequence p e desperado_freqs desperado_durations 64 0
       = Inr (separated (Usleep 50000) nts, k')"
    by (auto simp: song_lengths)
  moreover from this assms
  have "main p e argv
      = Inr (0, [Play_sequence desperado_freqs desperado_durations 64
                   (separated (Usleep 50000) nts)])"
    by (simp add: main_def)
  ultimately show ?thesis by blast
qed

lemma main_test_beep:
  assumes "2 \<le> length argv" "argv ! 1 = ''test''"
  shows "\<exists>evs k'. play_beep p e 800 300 0 = Inr (evs, k') \<and>
           main p e argv = Inr (0, [Play_beep 800 300 evs])"
proof -
  have "(800 :: c_int) \<noteq> 0" by simp
  from play_beep_returns [OF this, of p e 300 0]
  obtain evs k' where "play_beep p e 800 300 0 = Inr (evs, k')" by blast
  moreover from this assms have "main p e argv = Inr (0, [Play_beep 800 300 evs])"
    by (simp add: main_def)
  ultimately show ?thesis by blast
qed

lemma main_unknown:
  assumes "2 \<le> length argv"
    "argv ! 1 \<notin> {''clown'', ''mario'', ''desperado'', ''test''}"
  shows "main p e argv = Inr (1, [Printf (unknown_text (argv ! 1))])"
  using assms by (simp add: main_def)

lemma note_event_beep:
  assumes "f \<noteq> 0" "note_event p e f d k = Inr (ev, k')"
  shows "\<exists>evs. play_beep p e f d k = Inr (evs, k') \<and> ev = Play_beep f d evs"
  using assms by (auto simp: note_event_def split: sum.splits)

lemma clown_no_rest: "\<forall>f \<in> set clown_freqs. f \<noteq> 0"
  by (simp add: clown_freqs_def)

lemma main_calls:
  "\<exists>code evs. main p e argv = Inr (code, evs) \<and>
     concat (map beeps evs) =
       (if length argv < 2 then []
        else if argv ! 1 = ''clown'' then filter (\<lambda>(f, d). f \<noteq> 0) (zip clown_freqs clown_durations)
        else if argv ! 1 = ''mario'' then filter (\<lambda>(f, d). f \<noteq> 0) (zip mario_freqs mario_durations)
        else if argv ! 1 = ''desperado''
          then filter (\<lambda>(f, d). f \<noteq> 0) (zip desperado_freqs desperado_durations)
        else if argv ! 1 = ''test'' then [(800, 300)]
        else []) \<and>
     concat (map sequences evs) =
       (if length argv < 2 then []
        else if argv ! 1 = ''clown'' then [(clown_freqs, clown_durations, 40)]
        else if argv ! 1 = ''mario'' then [(mario_freqs, mario_durations, 64)]
        else if argv ! 1 = ''desperado'' then [(desperado_freqs, desperado_durations, 64)]
        else [])"
proof -
  consider (none) "length argv < 2"
    | (clown) "2 \<le> length argv" "argv ! 1 = ''clown''"
    | (mario) "2 \<le> length argv" "argv ! 1 = ''mario''"
    | (desperado) "2 \<le> length argv" "argv ! 1 = ''desperado''"
    | (test) "2 \<le> length argv" "argv ! 1 = ''test''"
    | (unknown) "2 \<le> length argv" "argv ! 1 \<notin> {''clown'', ''mario'', ''desperado'', ''test''}"
    by force
  then show ?thesis
  proof cases
    case none
    then show ?thesis by (simp add: main_no_argument)
  next
    case clown
    from main_clown [OF clown, of p e] obtain nts k' where
      ne: "note_events p e (zip clown_freqs clown_durations) 0 = Inr (nts, k')" and
      m: "main p e argv
        = Inr (0, [Play_sequence clown_freqs clown_durations 40 (separated (Usleep 50000) nts)])"
      by blast
    show ?thesis
      using clown m note_events_beeps [OF ne]
      by (simp add: separated_calls)
  next
    case mario
    from main_mario [OF mario, of p e] obtain nts k' where
      ne: "note_events p e (zip mario_freqs mario_durations) 0 = Inr (nts, k')" and
      m: "main p e argv
        = Inr (0, [Play_sequence mario_freqs mario_durations 64 (separated (Usleep 50000) nts)])"
      by blast
    show ?thesis
      using mario m note_events_beeps [OF ne]
      by (simp add: separated_calls)
  next
    case desperado
    from main_desperado [OF desperado, of p e] obtain nts k' where
      ne: "note_events p e (zip desperado_freqs desperado_durations) 0 = Inr (nts, k')" and
      m: "main p e argv
        = Inr (0, [Play_sequence desperado_freqs desperado_durations 64
                     (separated (Usleep 50000) nts)])"
      by blast
    show ?thesis
      using desperado m note_events_beeps [OF ne]
      by (simp add: separated_calls)
  next
    case test
    from main_test_beep [OF test, of p e] obtain evs k' where
      pb: "play_beep p e 800 300 0 = Inr (evs, k')" and
      m: "main p e argv = Inr (0, [Play_beep 800 300 evs])"
      by blast
    show ?thesis
      using test m play_beep_no_calls [OF pb] by simp
  next
    case unknown
    then show ?thesis by (simp add: main_unknown)
  qed
qed

subsection \<open>The claims about \<^verbatim>\<open>main\<close>\<close>

text \<open>
  Claim C2. With an argument list of fewer than two elements, \<^verbatim>\<open>main\<close> returns 1 and its
  only calls are the two \<^verbatim>\<open>printf\<close> of the usage text: no call of the sequencer and none
  of the tone emitter.
\<close>

theorem main_usage:
  assumes "length argv < 2"
  shows "\<exists>evs.
      main p ioctl_ret argv = Inr (1, evs) \<and>
      evs = [Printf (''Usage: '' @ program_name argv @ '' <sound_type>'' @ [CHR 0x0A]),
             Printf (''Sound types: clown, mario, desperado, test'' @ [CHR 0x0A])] \<and>
      concat (map sequences evs) = [] \<and>
      concat (map beeps evs) = []"
  using assms by (simp add: main_no_argument usage_text_def sound_types_text_def)

theorem main_usage_witness:
  "length [''beep''] < 2 \<and>
   main Linux (\<lambda>_. 0) [''beep'']
     = Inr (1, [Printf (''Usage: beep <sound_type>'' @ [CHR 0x0A]),
                Printf (''Sound types: clown, mario, desperado, test'' @ [CHR 0x0A])]) \<and>
   main Linux (\<lambda>_. 0) []
     = Inr (1, [Printf (''Usage: (null) <sound_type>'' @ [CHR 0x0A]),
                Printf (''Sound types: clown, mario, desperado, test'' @ [CHR 0x0A])])"
  using main_usage [of "[''beep'']" Linux "\<lambda>_. 0"] main_usage [of "[]" Linux "\<lambda>_. 0"]
  by (simp add: program_name_def)

text \<open>
  Claim C3. With the argument \<^verbatim>\<open>test\<close>, \<^verbatim>\<open>main\<close> returns 0 and its only call is
  \<^verbatim>\<open>play_beep(800, 300)\<close>: one call of the tone emitter, with frequency 800 and duration
  300, no call of the sequencer, no rest and no pause.
\<close>

theorem main_test:
  assumes "2 \<le> length argv" "argv ! 1 = ''test''"
  shows "\<exists>evs k'.
      play_beep p ioctl_ret 800 300 0 = Inr (evs, k') \<and>
      main p ioctl_ret argv = Inr (0, [Play_beep 800 300 evs]) \<and>
      concat (map beeps [Play_beep 800 300 evs]) = [(800, 300)] \<and>
      concat (map sequences [Play_beep 800 300 evs]) = []"
proof -
  from main_test_beep [OF assms, of p ioctl_ret] obtain evs k' where
    pb: "play_beep p ioctl_ret 800 300 0 = Inr (evs, k')" and
    m: "main p ioctl_ret argv = Inr (0, [Play_beep 800 300 evs])"
    by blast
  from play_beep_no_calls [OF pb] pb m show ?thesis by simp
qed

theorem main_test_witness:
  "2 \<le> length [''beep'', ''test''] \<and> [''beep'', ''test''] ! 1 = ''test'' \<and>
   main Linux (\<lambda>_. 0) [''beep'', ''test'']
     = Inr (0, [Play_beep 800 300 [Ioctl_tone 52430291, Usleep 300000, Ioctl_tone 0]])"
proof -
  have pb: "play_beep Linux (\<lambda>_. 0) 800 300 0
      = Inr ([Ioctl_tone 52430291, Usleep 300000, Ioctl_tone 0], 2)"
    by (simp add: play_beep_def c_div_def signed_divide_int_def)
  from main_test [of "[''beep'', ''test'']" Linux "\<lambda>_. 0"] pb
  show ?thesis by simp
qed

text \<open>
  Claim C4. With the argument \<^verbatim>\<open>clown\<close>, \<^verbatim>\<open>main\<close> returns 0 and its only call is the
  sequencer on the clown tables with count 40. The sequencer's events are 40 note events
  separated by pauses; note event \<open>i\<close> is the call of the tone emitter with the \<open>i\<close>-th
  frequency and the \<open>i\<close>-th duration of the tables (the clown song has no rest), so the
  calls of the tone emitter are the 40 pairs of the tables, in the tables' order.
\<close>

theorem main_clown_notes:
  assumes "2 \<le> length argv" "argv ! 1 = ''clown''"
  shows "\<exists>nts.
      main p ioctl_ret argv
        = Inr (0, [Play_sequence clown_freqs clown_durations 40 (separated (Usleep 50000) nts)]) \<and>
      length nts = 40 \<and>
      (\<forall>i<40. \<exists>evs k0 k1.
         play_beep p ioctl_ret (clown_freqs ! i) (clown_durations ! i) k0 = Inr (evs, k1) \<and>
         nts ! i = Play_beep (clown_freqs ! i) (clown_durations ! i) evs) \<and>
      concat (map beeps (separated (Usleep 50000) nts)) = zip clown_freqs clown_durations"
proof -
  from main_clown [OF assms, of p ioctl_ret] obtain nts k' where
    ne: "note_events p ioctl_ret (zip clown_freqs clown_durations) 0 = Inr (nts, k')" and
    len: "length nts = 40" and
    m: "main p ioctl_ret argv
      = Inr (0, [Play_sequence clown_freqs clown_durations 40 (separated (Usleep 50000) nts)])"
    by blast
  have each: "\<exists>evs k0 k1.
      play_beep p ioctl_ret (clown_freqs ! i) (clown_durations ! i) k0 = Inr (evs, k1) \<and>
      nts ! i = Play_beep (clown_freqs ! i) (clown_durations ! i) evs"
    if "i < 40" for i
  proof -
    have i: "i < length (zip clown_freqs clown_durations)"
      using that by (simp add: song_lengths)
    have nz: "clown_freqs ! i \<noteq> 0"
      using clown_no_rest that by (simp add: song_lengths)
    have nd: "zip clown_freqs clown_durations ! i = (clown_freqs ! i, clown_durations ! i)"
      using that by (simp add: song_lengths)
    from note_events_nth [OF ne i] obtain k0 k1 where
      "note_event p ioctl_ret (clown_freqs ! i) (clown_durations ! i) k0 = Inr (nts ! i, k1)"
      unfolding nd by auto
    from note_event_beep [OF nz this] show ?thesis
      by blast
  qed
  have "filter (\<lambda>(f, d). f \<noteq> 0) (zip clown_freqs clown_durations) = zip clown_freqs clown_durations"
    using clown_no_rest by (auto simp: filter_id_conv dest: set_zip_leftD)
  then have "concat (map beeps (separated (Usleep 50000) nts)) = zip clown_freqs clown_durations"
    using note_events_beeps(1) [OF ne] by (simp add: separated_calls)
  with m len each show ?thesis by blast
qed


theorem main_clown_notes_witness:
  "2 \<le> length [''beep'', ''clown''] \<and> [''beep'', ''clown''] ! 1 = ''clown'' \<and>
   (\<exists>nts.
      main Other (\<lambda>_. 0) [''beep'', ''clown'']
        = Inr (0, [Play_sequence clown_freqs clown_durations 40 (separated (Usleep 50000) nts)]) \<and>
      length nts = 40 \<and>
      nts ! 0 = Play_beep 523 200 [Printf [CHR 0x07], Fflush] \<and>
      nts ! 35 = Play_beep 880 400 [Printf [CHR 0x07], Fflush] \<and>
      nts ! 39 = Play_beep 440 400 [Printf [CHR 0x07], Fflush])"
proof -
  from main_clown_notes [of "[''beep'', ''clown'']" Other "\<lambda>_. 0"] obtain nts where
    m: "main Other (\<lambda>_. 0) [''beep'', ''clown'']
        = Inr (0, [Play_sequence clown_freqs clown_durations 40 (separated (Usleep 50000) nts)])" and
    len: "length nts = 40" and
    each: "\<forall>i<40. \<exists>evs k0 k1.
         play_beep Other (\<lambda>_. 0) (clown_freqs ! i) (clown_durations ! i) k0 = Inr (evs, k1) \<and>
         nts ! i = Play_beep (clown_freqs ! i) (clown_durations ! i) evs"
    by auto
  from each [rule_format, of 0] have n0: "nts ! 0 = Play_beep 523 200 [Printf [CHR 0x07], Fflush]"
    by (auto simp: play_beep_def bell_def clown_freqs_def clown_durations_def)
  from each [rule_format, of 35] have n35: "nts ! 35 = Play_beep 880 400 [Printf [CHR 0x07], Fflush]"
    by (auto simp: play_beep_def bell_def clown_freqs_def clown_durations_def)
  from each [rule_format, of 39] have n39: "nts ! 39 = Play_beep 440 400 [Printf [CHR 0x07], Fflush]"
    by (auto simp: play_beep_def bell_def clown_freqs_def clown_durations_def)
  from m len n0 n35 n39 have "\<exists>nts.
      main Other (\<lambda>_. 0) [''beep'', ''clown'']
        = Inr (0, [Play_sequence clown_freqs clown_durations 40 (separated (Usleep 50000) nts)]) \<and>
      length nts = 40 \<and>
      nts ! 0 = Play_beep 523 200 [Printf [CHR 0x07], Fflush] \<and>
      nts ! 35 = Play_beep 880 400 [Printf [CHR 0x07], Fflush] \<and>
      nts ! 39 = Play_beep 440 400 [Printf [CHR 0x07], Fflush]"
    by blast
  then show ?thesis by simp
qed

lemma song_notes:
  assumes "note_events p e (zip fs ds) k = Inr (nts, k')" "length fs = n" "length ds = n"
  shows "\<forall>i<n. if fs ! i = 0
           then nts ! i = Usleep (ds ! i * 1000)
           else \<exists>sub k0 k1. play_beep p e (fs ! i) (ds ! i) k0 = Inr (sub, k1) \<and>
                  nts ! i = Play_beep (fs ! i) (ds ! i) sub"
proof (intro allI impI)
  fix i assume i: "i < n"
  then have li: "i < length (zip fs ds)" using assms(2,3) by simp
  have nd: "zip fs ds ! i = (fs ! i, ds ! i)" using i assms(2,3) by simp
  from note_events_nth [OF assms(1) li] obtain k0 k1 where
    ev: "note_event p e (fs ! i) (ds ! i) k0 = Inr (nts ! i, k1)"
    unfolding nd by auto
  show "if fs ! i = 0
        then nts ! i = Usleep (ds ! i * 1000)
        else \<exists>sub k0 k1. play_beep p e (fs ! i) (ds ! i) k0 = Inr (sub, k1) \<and>
               nts ! i = Play_beep (fs ! i) (ds ! i) sub"
  proof (cases "fs ! i = 0")
    case True
    with ev show ?thesis by (simp add: note_event_def)
  next
    case False
    from note_event_beep [OF False ev] False show ?thesis by auto
  qed
qed

text \<open>
  Claim C1. With a sound type given (an argument list of at least two elements), \<^verbatim>\<open>main\<close>
  returns exit code 0 exactly when the argument is one of \<^verbatim>\<open>clown\<close>, \<^verbatim>\<open>mario\<close>,
  \<^verbatim>\<open>desperado\<close>, \<^verbatim>\<open>test\<close> (strings are compared character by character, so the match
  is case-sensitive). For a song name its only call is then the sequencer on that song's
  tables, and the song is played: the sequencer's events are one event per note of the
  tables (40 for clown, 64 for mario and for desperado), in the tables' order and
  separated by pauses, note \<open>i\<close> being the sleep of its duration when its frequency is 0
  and the call of the tone emitter with its frequency and duration otherwise. For
  \<^verbatim>\<open>test\<close> the only call is the tone emitter with 800 and 300. For any other argument
  \<^verbatim>\<open>main\<close> returns 1 and its only call prints \<^verbatim>\<open>Unknown sound type: \<close>, the argument and
  a newline.
\<close>

theorem main_exit_code:
  assumes "2 \<le> length argv"
  shows "\<exists>code evs.
      main p ioctl_ret argv = Inr (code, evs) \<and>
      (code = 0 \<longleftrightarrow> argv ! 1 \<in> {''clown'', ''mario'', ''desperado'', ''test''}) \<and>
      (argv ! 1 = ''clown'' \<longrightarrow>
         (\<exists>nts k.
            play_sequence p ioctl_ret clown_freqs clown_durations 40 0
              = Inr (separated (Usleep 50000) nts, k) \<and>
            evs = [Play_sequence clown_freqs clown_durations 40 (separated (Usleep 50000) nts)] \<and>
            length nts = 40 \<and>
            (\<forall>i<40. if clown_freqs ! i = 0
                    then nts ! i = Usleep (clown_durations ! i * 1000)
                    else \<exists>sub k0 k1.
                           play_beep p ioctl_ret (clown_freqs ! i) (clown_durations ! i) k0
                             = Inr (sub, k1) \<and>
                           nts ! i = Play_beep (clown_freqs ! i) (clown_durations ! i) sub))) \<and>
      (argv ! 1 = ''mario'' \<longrightarrow>
         (\<exists>nts k.
            play_sequence p ioctl_ret mario_freqs mario_durations 64 0
              = Inr (separated (Usleep 50000) nts, k) \<and>
            evs = [Play_sequence mario_freqs mario_durations 64 (separated (Usleep 50000) nts)] \<and>
            length nts = 64 \<and>
            (\<forall>i<64. if mario_freqs ! i = 0
                    then nts ! i = Usleep (mario_durations ! i * 1000)
                    else \<exists>sub k0 k1.
                           play_beep p ioctl_ret (mario_freqs ! i) (mario_durations ! i) k0
                             = Inr (sub, k1) \<and>
                           nts ! i = Play_beep (mario_freqs ! i) (mario_durations ! i) sub))) \<and>
      (argv ! 1 = ''desperado'' \<longrightarrow>
         (\<exists>nts k.
            play_sequence p ioctl_ret desperado_freqs desperado_durations 64 0
              = Inr (separated (Usleep 50000) nts, k) \<and>
            evs = [Play_sequence desperado_freqs desperado_durations 64
                     (separated (Usleep 50000) nts)] \<and>
            length nts = 64 \<and>
            (\<forall>i<64. if desperado_freqs ! i = 0
                    then nts ! i = Usleep (desperado_durations ! i * 1000)
                    else \<exists>sub k0 k1.
                           play_beep p ioctl_ret (desperado_freqs ! i) (desperado_durations ! i) k0
                             = Inr (sub, k1) \<and>
                           nts ! i
                             = Play_beep (desperado_freqs ! i) (desperado_durations ! i) sub))) \<and>
      (argv ! 1 = ''test'' \<longrightarrow>
         (\<exists>sub k. play_beep p ioctl_ret 800 300 0 = Inr (sub, k) \<and>
                  evs = [Play_beep 800 300 sub])) \<and>
      (argv ! 1 \<notin> {''clown'', ''mario'', ''desperado'', ''test''} \<longrightarrow>
         code = 1 \<and> evs = [Printf (''Unknown sound type: '' @ argv ! 1 @ [CHR 0x0A])])"
proof -
  consider (clown) "argv ! 1 = ''clown''"
    | (mario) "argv ! 1 = ''mario''"
    | (desperado) "argv ! 1 = ''desperado''"
    | (test) "argv ! 1 = ''test''"
    | (unknown) "argv ! 1 \<notin> {''clown'', ''mario'', ''desperado'', ''test''}"
    by force
  then show ?thesis
  proof cases
    case clown
    from main_clown [OF assms clown, of p ioctl_ret] obtain nts k' where
      ne: "note_events p ioctl_ret (zip clown_freqs clown_durations) 0 = Inr (nts, k')" and
      rest: "length nts = 40"
        "play_sequence p ioctl_ret clown_freqs clown_durations 40 0
           = Inr (separated (Usleep 50000) nts, k')"
        "main p ioctl_ret argv
           = Inr (0, [Play_sequence clown_freqs clown_durations 40 (separated (Usleep 50000) nts)])"
      by blast
    let ?evs = "[Play_sequence clown_freqs clown_durations 40 (separated (Usleep 50000) nts)]"
    from song_notes [OF ne song_lengths(1) song_lengths(2)] rest
    have song: "\<exists>nts k.
        play_sequence p ioctl_ret clown_freqs clown_durations 40 0
          = Inr (separated (Usleep 50000) nts, k) \<and>
        ?evs = [Play_sequence clown_freqs clown_durations 40 (separated (Usleep 50000) nts)] \<and>
        length nts = 40 \<and>
        (\<forall>i<40. if clown_freqs ! i = 0
                then nts ! i = Usleep (clown_durations ! i * 1000)
                else \<exists>sub k0 k1.
                       play_beep p ioctl_ret (clown_freqs ! i) (clown_durations ! i) k0
                         = Inr (sub, k1) \<and>
                       nts ! i = Play_beep (clown_freqs ! i) (clown_durations ! i) sub)"
      by blast
    have other: "argv ! 1 \<in> {''clown'', ''mario'', ''desperado'', ''test''}"
      "argv ! 1 \<noteq> ''mario''" "argv ! 1 \<noteq> ''desperado''" "argv ! 1 \<noteq> ''test''"
      using clown by simp_all
    show ?thesis
      using rest(3) song other clown
      by (intro exI [of _ 0] exI [of _ ?evs]) (simp only: simp_thms refl)
  next
    case mario
    from main_mario [OF assms mario, of p ioctl_ret] obtain nts k' where
      ne: "note_events p ioctl_ret (zip mario_freqs mario_durations) 0 = Inr (nts, k')" and
      rest: "length nts = 64"
        "play_sequence p ioctl_ret mario_freqs mario_durations 64 0
           = Inr (separated (Usleep 50000) nts, k')"
        "main p ioctl_ret argv
           = Inr (0, [Play_sequence mario_freqs mario_durations 64 (separated (Usleep 50000) nts)])"
      by blast
    let ?evs = "[Play_sequence mario_freqs mario_durations 64 (separated (Usleep 50000) nts)]"
    from song_notes [OF ne song_lengths(3) song_lengths(4)] rest
    have song: "\<exists>nts k.
        play_sequence p ioctl_ret mario_freqs mario_durations 64 0
          = Inr (separated (Usleep 50000) nts, k) \<and>
        ?evs = [Play_sequence mario_freqs mario_durations 64 (separated (Usleep 50000) nts)] \<and>
        length nts = 64 \<and>
        (\<forall>i<64. if mario_freqs ! i = 0
                then nts ! i = Usleep (mario_durations ! i * 1000)
                else \<exists>sub k0 k1.
                       play_beep p ioctl_ret (mario_freqs ! i) (mario_durations ! i) k0
                         = Inr (sub, k1) \<and>
                       nts ! i = Play_beep (mario_freqs ! i) (mario_durations ! i) sub)"
      by blast
    have other: "argv ! 1 \<in> {''clown'', ''mario'', ''desperado'', ''test''}"
      "argv ! 1 \<noteq> ''clown''" "argv ! 1 \<noteq> ''desperado''" "argv ! 1 \<noteq> ''test''"
      using mario by simp_all
    show ?thesis
      using rest(3) song other mario
      by (intro exI [of _ 0] exI [of _ ?evs]) (simp only: simp_thms refl)
  next
    case desperado
    from main_desperado [OF assms desperado, of p ioctl_ret] obtain nts k' where
      ne: "note_events p ioctl_ret (zip desperado_freqs desperado_durations) 0 = Inr (nts, k')" and
      rest: "length nts = 64"
        "play_sequence p ioctl_ret desperado_freqs desperado_durations 64 0
           = Inr (separated (Usleep 50000) nts, k')"
        "main p ioctl_ret argv
           = Inr (0, [Play_sequence desperado_freqs desperado_durations 64
                        (separated (Usleep 50000) nts)])"
      by blast
    let ?evs = "[Play_sequence desperado_freqs desperado_durations 64 (separated (Usleep 50000) nts)]"
    from song_notes [OF ne song_lengths(5) song_lengths(6)] rest
    have song: "\<exists>nts k.
        play_sequence p ioctl_ret desperado_freqs desperado_durations 64 0
          = Inr (separated (Usleep 50000) nts, k) \<and>
        ?evs = [Play_sequence desperado_freqs desperado_durations 64 (separated (Usleep 50000) nts)] \<and>
        length nts = 64 \<and>
        (\<forall>i<64. if desperado_freqs ! i = 0
                then nts ! i = Usleep (desperado_durations ! i * 1000)
                else \<exists>sub k0 k1.
                       play_beep p ioctl_ret (desperado_freqs ! i) (desperado_durations ! i) k0
                         = Inr (sub, k1) \<and>
                       nts ! i = Play_beep (desperado_freqs ! i) (desperado_durations ! i) sub)"
      by blast
    have other: "argv ! 1 \<in> {''clown'', ''mario'', ''desperado'', ''test''}"
      "argv ! 1 \<noteq> ''clown''" "argv ! 1 \<noteq> ''mario''" "argv ! 1 \<noteq> ''test''"
      using desperado by simp_all
    show ?thesis
      using rest(3) song other desperado
      by (intro exI [of _ 0] exI [of _ ?evs]) (simp only: simp_thms refl)
  next
    case test
    from main_test_beep [OF assms test, of p ioctl_ret] test show ?thesis by auto
  next
    case unknown
    from main_unknown [OF assms unknown, of p ioctl_ret] unknown show ?thesis
      by (simp add: unknown_text_def)
  qed
qed


theorem main_exit_code_witness:
  "2 \<le> length [''beep'', ''mario''] \<and>
   main Other (\<lambda>_. 0) [''beep'', ''mario'']
     = Inr (0, [Play_sequence mario_freqs mario_durations 64
                  (separated (Usleep 50000)
                     (map2 (\<lambda>f d. if f = 0 then Usleep (d * 1000)
                                   else Play_beep f d [Printf [CHR 0x07], Fflush])
                        mario_freqs mario_durations))]) \<and>
   main Other (\<lambda>_. 0) [''beep'', ''test''] = Inr (0, [Play_beep 800 300 [Printf [CHR 0x07], Fflush]]) \<and>
   main Other (\<lambda>_. 0) [''beep'', ''Test''] = Inr (1, [Printf (''Unknown sound type: Test'' @ [CHR 0x0A])]) \<and>
   main Other (\<lambda>_. 0) [''beep'', ''foo'', ''test'']
     = Inr (1, [Printf (''Unknown sound type: foo'' @ [CHR 0x0A])])"
proof -
  let ?F = "\<lambda>f d :: c_int. if f = 0 then Usleep (d * 1000)
                         else Play_beep f d [Printf [CHR 0x07], Fflush]"
  from main_exit_code [of "[''beep'', ''mario'']" Other "\<lambda>_. 0"] obtain nts where
    m: "main Other (\<lambda>_. 0) [''beep'', ''mario'']
        = Inr (0, [Play_sequence mario_freqs mario_durations 64 (separated (Usleep 50000) nts)])" and
    len: "length nts = 64" and
    each: "\<forall>i<64. if mario_freqs ! i = 0
              then nts ! i = Usleep (mario_durations ! i * 1000)
              else \<exists>sub k0 k1.
                     play_beep Other (\<lambda>_. 0) (mario_freqs ! i) (mario_durations ! i) k0
                       = Inr (sub, k1) \<and>
                     nts ! i = Play_beep (mario_freqs ! i) (mario_durations ! i) sub"
    by auto
  have "nts = map2 ?F mario_freqs mario_durations"
  proof (rule nth_equalityI)
    show "length nts = length (map2 ?F mario_freqs mario_durations)"
      using len by (simp add: song_lengths)
  next
    fix i assume "i < length nts"
    then have i: "i < 64" using len by simp
    from each [rule_format, OF i]
    have "nts ! i = ?F (mario_freqs ! i) (mario_durations ! i)"
      by (auto simp: play_beep_def bell_def)
    then show "nts ! i = map2 ?F mario_freqs mario_durations ! i"
      using i by (simp add: song_lengths)
  qed
  with m have song: "main Other (\<lambda>_. 0) [''beep'', ''mario'']
     = Inr (0, [Play_sequence mario_freqs mario_durations 64
                  (separated (Usleep 50000) (map2 ?F mario_freqs mario_durations))])"
    by simp
  have pb: "play_beep Other (\<lambda>_. 0) 800 300 0 = Inr ([Printf [CHR 0x07], Fflush], 0)"
    by (simp add: play_beep_def bell_def)
  from main_exit_code [of "[''beep'', ''test'']" Other "\<lambda>_. 0"] pb
  have a: "main Other (\<lambda>_. 0) [''beep'', ''test'']
      = Inr (0, [Play_beep 800 300 [Printf [CHR 0x07], Fflush]])"
    by auto
  from main_exit_code [of "[''beep'', ''Test'']" Other "\<lambda>_. 0"]
  have b: "main Other (\<lambda>_. 0) [''beep'', ''Test'']
      = Inr (1, [Printf (''Unknown sound type: Test'' @ [CHR 0x0A])])"
    by auto
  from main_exit_code [of "[''beep'', ''foo'', ''test'']" Other "\<lambda>_. 0"]
  have c: "main Other (\<lambda>_. 0) [''beep'', ''foo'', ''test'']
      = Inr (1, [Printf (''Unknown sound type: foo'' @ [CHR 0x0A])])"
    by auto
  from song a b c show ?thesis by simp
qed

text \<open>
  Claim C9. On every run of the program (any platform, any behaviour of \<^verbatim>\<open>ioctl\<close>, any
  argument list) \<^verbatim>\<open>main\<close> returns an exit code, so the division
  \<^verbatim>\<open>1193180 / frequency\<close> never has a zero divisor, and every call of the tone emitter made
  during the run, directly or from the sequencer, has a nonzero frequency.
\<close>

theorem main_beeps_nonzero:
  "\<exists>code evs.
      main p ioctl_ret argv = Inr (code, evs) \<and>
      (\<forall>(f, d) \<in> set (concat (map beeps evs)). f \<noteq> 0)"
proof -
  from main_calls [of p ioctl_ret argv] obtain code evs where
    m: "main p ioctl_ret argv = Inr (code, evs)" and
    b: "concat (map beeps evs) =
       (if length argv < 2 then []
        else if argv ! 1 = ''clown'' then filter (\<lambda>(f, d). f \<noteq> 0) (zip clown_freqs clown_durations)
        else if argv ! 1 = ''mario'' then filter (\<lambda>(f, d). f \<noteq> 0) (zip mario_freqs mario_durations)
        else if argv ! 1 = ''desperado''
          then filter (\<lambda>(f, d). f \<noteq> 0) (zip desperado_freqs desperado_durations)
        else if argv ! 1 = ''test'' then [(800, 300)]
        else [])"
    by blast
  have "\<forall>(f, d) \<in> set (concat (map beeps evs)). f \<noteq> 0"
    unfolding b by auto
  with m show ?thesis by blast
qed

theorem main_beeps_nonzero_witness:
  "\<exists>code evs.
      main Linux (\<lambda>_. 0) [''beep'', ''test''] = Inr (code, evs) \<and>
      concat (map beeps evs) = [(800, 300)] \<and> (800 :: c_int) \<noteq> 0"
proof -
  have "main Linux (\<lambda>_. 0) [''beep'', ''test'']
      = Inr (0, [Play_beep 800 300 [Ioctl_tone 52430291, Usleep 300000, Ioctl_tone 0]])"
    by (simp add: main_def play_beep_def c_div_def signed_divide_int_def)
  with main_beeps_nonzero [of Linux "\<lambda>_. 0" "[''beep'', ''test'']"]
  show ?thesis by auto
qed

lemma uint_nonneg:
  fixes i :: c_int
  assumes "0 \<le>s i"
  shows "uint i = sint i"
proof -
  have "0 \<le> sint i" using assms by (simp add: word_sle_eq)
  moreover have "sint i < 2 ^ 32" using sint_lt [of i] by simp
  ultimately show ?thesis
    by (simp add: uint_sint take_bit_int_eq_self)
qed

lemma index_in_bounds:
  assumes "0 \<le>s n" "length xs = unat n" "0 \<le>s i" "i <s n"
  shows "\<exists>x. index xs i = Inr x"
proof -
  have "uint i < uint n"
    using assms(4) uint_nonneg [OF assms(1)] uint_nonneg [OF assms(3)]
    by (simp add: word_sless_alt)
  then have "i < n" by (simp add: word_less_def)
  then have "unat i < length xs" using assms(2) by (simp add: word_less_nat_alt)
  with assms(3) show ?thesis by (simp add: index_def)
qed

text \<open>
  Claim C10. On every run, every call of the sequencer passes a nonnegative count equal to
  the length of both arrays it passes: the call is one of the three of \<^verbatim>\<open>main\<close>, with 40
  for the clown tables and 64 for the mario and the desperado tables. So every index from
  0 to the count minus 1 reads inside both arrays, and \<^verbatim>\<open>main\<close> returns an exit code, never
  the out-of-bounds error.
\<close>

theorem main_sequence_bounds:
  "\<exists>code evs.
      main p ioctl_ret argv = Inr (code, evs) \<and>
      (\<forall>(fs, ds, n) \<in> set (concat (map sequences evs)).
         length fs = unat n \<and> length ds = unat n \<and> 0 \<le>s n \<and>
         (fs = clown_freqs \<and> ds = clown_durations \<and> n = 40 \<or>
          fs = mario_freqs \<and> ds = mario_durations \<and> n = 64 \<or>
          fs = desperado_freqs \<and> ds = desperado_durations \<and> n = 64) \<and>
         (\<forall>i. 0 \<le>s i \<and> i <s n \<longrightarrow> (\<exists>f d. index fs i = Inr f \<and> index ds i = Inr d)))"
proof -
  from main_calls [of p ioctl_ret argv] obtain code evs where
    m: "main p ioctl_ret argv = Inr (code, evs)" and
    s: "concat (map sequences evs) =
       (if length argv < 2 then []
        else if argv ! 1 = ''clown'' then [(clown_freqs, clown_durations, 40)]
        else if argv ! 1 = ''mario'' then [(mario_freqs, mario_durations, 64)]
        else if argv ! 1 = ''desperado'' then [(desperado_freqs, desperado_durations, 64)]
        else [])"
    by blast
  have ok: "length fs = unat n \<and> length ds = unat n \<and> 0 \<le>s n \<and>
         (fs = clown_freqs \<and> ds = clown_durations \<and> n = 40 \<or>
          fs = mario_freqs \<and> ds = mario_durations \<and> n = 64 \<or>
          fs = desperado_freqs \<and> ds = desperado_durations \<and> n = 64) \<and>
         (\<forall>i. 0 \<le>s i \<and> i <s n \<longrightarrow> (\<exists>f d. index fs i = Inr f \<and> index ds i = Inr d))"
    if "(fs, ds, n) \<in> set (concat (map sequences evs))" for fs ds n
  proof -
    from that have which: "fs = clown_freqs \<and> ds = clown_durations \<and> n = 40 \<or>
          fs = mario_freqs \<and> ds = mario_durations \<and> n = 64 \<or>
          fs = desperado_freqs \<and> ds = desperado_durations \<and> n = 64"
      unfolding s by (auto split: if_splits)
    then have len: "length fs = unat n" "length ds = unat n" and n: "0 \<le>s n"
      by (auto simp: song_lengths word_sle_eq)
    from index_in_bounds [OF n len(1)] index_in_bounds [OF n len(2)]
    have "\<forall>i. 0 \<le>s i \<and> i <s n \<longrightarrow> (\<exists>f d. index fs i = Inr f \<and> index ds i = Inr d)"
      by blast
    with which len n show ?thesis by blast
  qed
  then have "\<forall>(fs, ds, n) \<in> set (concat (map sequences evs)).
         length fs = unat n \<and> length ds = unat n \<and> 0 \<le>s n \<and>
         (fs = clown_freqs \<and> ds = clown_durations \<and> n = 40 \<or>
          fs = mario_freqs \<and> ds = mario_durations \<and> n = 64 \<or>
          fs = desperado_freqs \<and> ds = desperado_durations \<and> n = 64) \<and>
         (\<forall>i. 0 \<le>s i \<and> i <s n \<longrightarrow> (\<exists>f d. index fs i = Inr f \<and> index ds i = Inr d))"
    by blast
  with m show ?thesis by blast
qed

theorem main_sequence_bounds_witness:
  "\<exists>code evs.
      main Apple (\<lambda>_. 0) [''beep'', ''mario''] = Inr (code, evs) \<and>
      concat (map sequences evs) = [(mario_freqs, mario_durations, 64)] \<and>
      length mario_freqs = unat (64 :: c_int) \<and> length mario_durations = unat (64 :: c_int) \<and>
      index mario_freqs 63 = Inr 440 \<and> index mario_durations 63 = Inr 200"
proof -
  from main_sequence_bounds [of Apple "\<lambda>_. 0" "[''beep'', ''mario'']"] obtain code evs where
    m: "main Apple (\<lambda>_. 0) [''beep'', ''mario''] = Inr (code, evs)" and
    a: "\<forall>(fs, ds, n) \<in> set (concat (map sequences evs)).
         length fs = unat n \<and> length ds = unat n"
    by fastforce
  from main_calls [of Apple "\<lambda>_. 0" "[''beep'', ''mario'']"] m
  have s: "concat (map sequences evs) = [(mario_freqs, mario_durations, 64)]"
    by auto
  with a have "length mario_freqs = unat (64 :: c_int)" "length mario_durations = unat (64 :: c_int)"
    by simp_all
  moreover have "index mario_freqs 63 = Inr 440" "index mario_durations 63 = Inr 200"
    by (simp_all add: index_def mario_freqs_def mario_durations_def word_sle_eq)
  ultimately show ?thesis using m s by blast
qed

end
